theory Spec2Isabelle
  imports Complex_Main "HOL-Library.Log_Nat"
begin

section \<open>Data model\<close>

text \<open>
  Modelled from the spec: the typedefs of \<open>Time\<close> and \<open>Key\<close> are not in the sources.
  \<open>Time\<close> is a 64-bit signed integer (nanoseconds) and \<open>Key\<close> a monotonically
  assigned, process-unique 64-bit identifier. A time is the integer it denotes, from
  \<open>-2^63\<close> up to \<open>2^63 - 1\<close>; where the sources compute with times, the wrap-around of
  the 64-bit result is written out. Keys are only handed on, so they are natural numbers,
  and the key generator is taken not to run out of keys.
\<close>

type_synonym Time = int
type_synonym Key = nat

text \<open>
  The value a 64-bit signed integer holds when the exact result of an operation is \<open>x\<close>.
  Signed overflow is undefined in C++; the model takes the two's complement result that
  the compiled code produces.
\<close>

definition wrap_Time :: "int \<Rightarrow> Time" where
  "wrap_Time x = (x + 2 ^ 63) mod 2 ^ 64 - 2 ^ 63"

text \<open>The difference of two times, as \<open>Time dt = a - b\<close> computes it.\<close>

definition Time_sub :: "Time \<Rightarrow> Time \<Rightarrow> Time" where
  "Time_sub a b = wrap_Time (a - b)"

text \<open>
  A \<open>double\<close> is an IEEE 754 binary64 number. A finite double is the real number it
  denotes; the non-finite doubles (NaN and the two infinities) are the one value \<open>None\<close>.
  The two zeros are not told apart: they differ only in the sign of an infinity, which
  is non-finite either way.
\<close>

type_synonym double = "real option"

text \<open>Two to an integer power.\<close>

definition pow2 :: "int \<Rightarrow> real" where
  "pow2 e = (if 0 \<le> e then 2 ^ nat e else 1 / 2 ^ nat (- e))"

text \<open>The nearest integer, a tie going to the even one.\<close>

definition round_even :: "real \<Rightarrow> int" where
  "round_even x =
     (let f = \<lfloor>x\<rfloor>; d = x - real_of_int f
      in if d < 1 / 2 then f else if 1 / 2 < d then f + 1
         else if even f then f else f + 1)"

text \<open>For \<open>a > 0\<close>, the exponent \<open>e\<close> with \<open>2^e \<le> a < 2^(e+1)\<close>.\<close>

definition ilog2 :: "real \<Rightarrow> int" where
  "ilog2 a = (if 1 \<le> a then bitlen \<lfloor>a\<rfloor> - 1 else - bitlen (\<lceil>1 / a\<rceil> - 1))"

text \<open>
  Rounding a real number to binary64 in the default mode, to nearest with ties to even.
  A number with exponent \<open>e\<close> is rounded to a multiple of \<open>2^(e - 52)\<close>, which keeps 53
  significant bits; below the normal range the multiples are of \<open>2^-1074\<close>. A result of
  magnitude \<open>2^1024\<close> or more is an infinity.
\<close>

definition round_to_double :: "real \<Rightarrow> double" where
  "round_to_double x =
     (if x = 0 then Some 0
      else let a = \<bar>x\<bar>; e = ilog2 a in
        if 1024 \<le> e then None
        else let q = max (e - 52) (- 1074); r = round_even (a / pow2 q) in
          if e = 1023 \<and> r = 2 ^ 53 then None
          else Some (sgn x * real_of_int r * pow2 q))"

text \<open>
  Each arithmetic operation yields its exact result, rounded; no two operations are
  fused. With a non-finite operand the result of a multiplication, an addition or a
  subtraction is non-finite.
\<close>

definition dmul :: "double \<Rightarrow> double \<Rightarrow> double" where
  "dmul a b = (case a of None \<Rightarrow> None
               | Some x \<Rightarrow> (case b of None \<Rightarrow> None | Some y \<Rightarrow> round_to_double (x * y)))"

definition dadd :: "double \<Rightarrow> double \<Rightarrow> double" where
  "dadd a b = (case a of None \<Rightarrow> None
               | Some x \<Rightarrow> (case b of None \<Rightarrow> None | Some y \<Rightarrow> round_to_double (x + y)))"

definition dsub :: "double \<Rightarrow> double \<Rightarrow> double" where
  "dsub a b = (case a of None \<Rightarrow> None
               | Some x \<Rightarrow> (case b of None \<Rightarrow> None | Some y \<Rightarrow> round_to_double (x - y)))"

text \<open>The conversion \<open>double(t)\<close> of a time.\<close>

definition double_of_Time :: "Time \<Rightarrow> double" where
  "double_of_Time t = round_to_double (real_of_int t)"

text \<open>
  \<open>double(t)/double(dt)\<close> for two times: both are converted, and the quotient is
  rounded. A division by zero is non-finite.
\<close>

definition ddiv_Time :: "Time \<Rightarrow> Time \<Rightarrow> double" where
  "ddiv_Time t dt =
     (case double_of_Time t of
        None \<Rightarrow> None
      | Some x \<Rightarrow>
          (case double_of_Time dt of
             None \<Rightarrow> None
           | Some y \<Rightarrow> if y = 0 then None else round_to_double (x / y)))"

text \<open>
  \<open>Eigen::VectorXd\<close> is a list of doubles. Adding two vectors of different sizes trips
  Eigen's size assertion, and is undefined behaviour when assertions are compiled out.
\<close>

type_synonym VectorXd = "double list"

text \<open>
  \<open>CheckFailed s\<close> is a failed glog \<open>CHECK\<close>: \<open>s\<close> is the literal text streamed into
  it (values streamed after the text are left out), and the process aborts.
  \<open>PreconditionViolation\<close> is the failure of a coefficient manager mutator.
  \<open>NotFound\<close> is the specification's result value for a query that has no answer; it
  is the only failure a caller can continue after. \<open>UndefinedBehaviour\<close> stands for
  a read out of range, an iterator that points at no entry, and Eigen's size mismatch.
\<close>

datatype error =
    CheckFailed string
  | PreconditionViolation
  | NotFound
  | UndefinedBehaviour

fun recoverable :: "error \<Rightarrow> bool" where
  "recoverable (CheckFailed s) = False"
| "recoverable PreconditionViolation = False"
| "recoverable NotFound = True"
| "recoverable UndefinedBehaviour = False"

text \<open>An outcome together with the state in which the call ended.\<close>

type_synonym ('a, 's) call = "(error + 'a) \<times> 's"

definition smul :: "double \<Rightarrow> VectorXd \<Rightarrow> VectorXd" where
  "smul a v = map (dmul a) v"

definition vadd :: "VectorXd \<Rightarrow> VectorXd \<Rightarrow> error + VectorXd" where
  "vadd u v = (if length u = length v then Inr (map2 dadd u v) else Inl UndefinedBehaviour)"

text \<open>The vector space curve's coefficient wraps a vector.\<close>

datatype Coefficient = Coefficient VectorXd

fun getValue :: "Coefficient \<Rightarrow> VectorXd" where
  "getValue (Coefficient v) = v"

text \<open>One stored entry, with the three fields \<open>evaluate\<close> reads from it.\<close>

record 'c KeyCoefficientTime =
  key :: Key
  coefficient :: 'c
  time :: Time

section \<open>Coefficient manager\<close>

text \<open>
  Modelled from the spec: the coefficient manager class is not in the sources. Its
  time-ordered map is the list of its entries in ascending time; \<open>nextKey\<close> is the
  state of the key generator, which survives \<open>clear\<close> because keys are never reused.
\<close>

record 'c CoefficientManager =
  timeToCoefficient :: "'c KeyCoefficientTime list"
  nextKey :: Key

text \<open>Modelled from the spec: \<open>size\<close>, the number of stored entries.\<close>

definition size_m :: "'c CoefficientManager \<Rightarrow> nat" where
  "size_m m = length (timeToCoefficient m)"

text \<open>Modelled from the spec: \<open>empty\<close>, whether no entry is stored.\<close>

definition empty_m :: "'c CoefficientManager \<Rightarrow> bool" where
  "empty_m m = (timeToCoefficient m = [])"

text \<open>Modelled from the spec: \<open>clear\<close> destroys all entries.\<close>

definition clear :: "'c CoefficientManager \<Rightarrow> 'c CoefficientManager" where
  "clear m = m\<lparr>timeToCoefficient := []\<rparr>"

text \<open>
  Modelled from the spec: \<open>getFrontTime\<close> is the smallest time present, or a sentinel
  when the map is empty. The specification does not give the sentinel, so it is a
  parameter.
\<close>

definition getFrontTime :: "Time \<Rightarrow> 'c CoefficientManager \<Rightarrow> Time" where
  "getFrontTime sentinel m =
     (case timeToCoefficient m of [] \<Rightarrow> sentinel | e # es \<Rightarrow> time e)"

text \<open>
  Modelled from the spec: \<open>getBackTime\<close> is the largest time present, or the sentinel
  when the map is empty.
\<close>

definition getBackTime :: "Time \<Rightarrow> 'c CoefficientManager \<Rightarrow> Time" where
  "getBackTime sentinel m =
     (case timeToCoefficient m of [] \<Rightarrow> sentinel | e # es \<Rightarrow> time (last (e # es)))"

text \<open>Modelled from the spec: whether an entry is stored at a time.\<close>

definition hasCoefficientAtTime :: "Time \<Rightarrow> 'c CoefficientManager \<Rightarrow> bool" where
  "hasCoefficientAtTime t m = (t \<in> set (map time (timeToCoefficient m)))"

text \<open>
  Modelled from the spec: the ordered map places a new entry at its position in the
  time order.
\<close>

fun insertEntry :: "'c KeyCoefficientTime \<Rightarrow> 'c KeyCoefficientTime list
    \<Rightarrow> 'c KeyCoefficientTime list" where
  "insertEntry e [] = [e]"
| "insertEntry e (x # xs) = (if time e < time x then e # x # xs else x # insertEntry e xs)"

text \<open>
  Modelled from the spec: the entries a batch creates. The \<open>i\<close>-th input gets the
  \<open>i\<close>-th fresh key.
\<close>

fun newEntries :: "Key \<Rightarrow> Time list \<Rightarrow> 'c list \<Rightarrow> 'c KeyCoefficientTime list" where
  "newEntries k (t # ts) (v # vs) =
     \<lparr>key = k, coefficient = v, time = t\<rparr> # newEntries (Suc k) ts vs"
| "newEntries k ts vs = []"

text \<open>
  Modelled from the spec: \<open>insertCoefficients\<close> takes parallel sequences and fails with
  a precondition violation when their lengths differ, when the batch times are not
  strictly increasing, or when a time is already present. It validates before it
  applies, so a failed call leaves the manager as it was. A successful call assigns one
  fresh key per entry and reports the keys in input order.
\<close>

definition insertCoefficients :: "Time list \<Rightarrow> 'c list \<Rightarrow> 'c CoefficientManager
    \<Rightarrow> (Key list, 'c CoefficientManager) call" where
  "insertCoefficients ts vs m =
     (if length ts \<noteq> length vs \<or> \<not> sorted_wrt (<) ts
         \<or> list_ex (\<lambda>t. hasCoefficientAtTime t m) ts
      then (Inl PreconditionViolation, m)
      else (Inr [nextKey m ..< nextKey m + length ts],
            m\<lparr>timeToCoefficient := fold insertEntry (newEntries (nextKey m) ts vs)
                                      (timeToCoefficient m),
              nextKey := nextKey m + length ts\<rparr>))"

text \<open>
  Modelled from the spec: \<open>addCoefficientAtEnd\<close> requires the map to be empty or the
  time to be after the current maximum, and appends one entry under a fresh key.
\<close>

definition addCoefficientAtEnd :: "Time \<Rightarrow> 'c \<Rightarrow> 'c CoefficientManager
    \<Rightarrow> (Key list, 'c CoefficientManager) call" where
  "addCoefficientAtEnd t v m =
     (if timeToCoefficient m \<noteq> [] \<and> t \<le> time (last (timeToCoefficient m))
      then (Inl PreconditionViolation, m)
      else (Inr [nextKey m],
            m\<lparr>timeToCoefficient :=
                 timeToCoefficient m @ [\<lparr>key = nextKey m, coefficient = v, time = t\<rparr>],
              nextKey := Suc (nextKey m)\<rparr>))"

text \<open>
  Modelled from the spec: \<open>coefficientEnd\<close> is the iterator one past the last entry.
  An iterator is the position of an entry in the time order.
\<close>

definition coefficientEnd :: "'c CoefficientManager \<Rightarrow> nat" where
  "coefficientEnd m = length (timeToCoefficient m)"

text \<open>
  Modelled from the spec: \<open>modifyCoefficient\<close> replaces the value of an existing entry
  and moves it to the new time, keeping its key. The specification is silent on a new
  time that another entry already has; the model rejects it, as \<open>insertCoefficients\<close>
  rejects a time that is present, so that times stay distinct. An iterator that points
  at no entry is undefined behaviour.
\<close>

definition modifyCoefficient :: "nat \<Rightarrow> Time \<Rightarrow> 'c \<Rightarrow> 'c CoefficientManager
    \<Rightarrow> (unit, 'c CoefficientManager) call" where
  "modifyCoefficient it t v m =
     (let es = timeToCoefficient m in
      if length es \<le> it then (Inl UndefinedBehaviour, m)
      else let others = take it es @ drop (Suc it) es in
        if t \<in> set (map time others) then (Inl PreconditionViolation, m)
        else (Inr (),
              m\<lparr>timeToCoefficient :=
                   insertEntry \<lparr>key = key (es ! it), coefficient = v, time = t\<rparr> others\<rparr>))"

text \<open>
  Modelled from the spec: the selection rule of \<open>getCoefficientsAt\<close> once the query is
  known to be at or after \<open>e0\<close>, with \<open>e1\<close> the entry after \<open>e0\<close>. Strictly between
  two entries it yields those two; on an entry that is not the last, that entry and the
  next; on the last entry, the one before it and the last; after the last entry nothing.
\<close>

fun bracket :: "Time \<Rightarrow> 'c KeyCoefficientTime \<Rightarrow> 'c KeyCoefficientTime
    \<Rightarrow> 'c KeyCoefficientTime list
    \<Rightarrow> ('c KeyCoefficientTime \<times> 'c KeyCoefficientTime) option" where
  "bracket t e0 e1 [] = (if t \<le> time e1 then Some (e0, e1) else None)"
| "bracket t e0 e1 (e2 # es) = (if t < time e1 then Some (e0, e1) else bracket t e1 e2 es)"

text \<open>
  Modelled from the spec: \<open>getCoefficientsAt\<close> on the list of entries. It fails on an
  empty map and before the first entry. With fewer than two entries it fails when the
  time needs interpolation; on the time of the only entry nothing needs interpolating,
  and both results are that entry.
\<close>

fun getCoefficientsAt_list :: "Time \<Rightarrow> 'c KeyCoefficientTime list
    \<Rightarrow> ('c KeyCoefficientTime \<times> 'c KeyCoefficientTime) option" where
  "getCoefficientsAt_list t [] = None"
| "getCoefficientsAt_list t [e] = (if t = time e then Some (e, e) else None)"
| "getCoefficientsAt_list t (e0 # e1 # es) = (if t < time e0 then None else bracket t e0 e1 es)"

text \<open>
  Modelled from the spec: \<open>getCoefficientsAt\<close>, whose \<open>false\<close> is \<open>None\<close> and whose
  output pair is the value under \<open>Some\<close>.
\<close>

definition getCoefficientsAt :: "Time \<Rightarrow> 'c CoefficientManager
    \<Rightarrow> ('c KeyCoefficientTime \<times> 'c KeyCoefficientTime) option" where
  "getCoefficientsAt t m = getCoefficientsAt_list t (timeToCoefficient m)"

text \<open>The manager's invariant: times strictly increase along the map.\<close>

definition ordered :: "'c CoefficientManager \<Rightarrow> bool" where
  "ordered m = sorted_wrt (<) (map time (timeToCoefficient m))"

section \<open>Linear interpolation vector space curve\<close>

text \<open>
  The curve holds its dimension and one manager. Every method takes the curve and
  yields its outcome with the curve as the call left it; a \<open>const\<close> method hands the
  curve back as it got it. The trailing underscore of member names is dropped.
\<close>

record LinearInterpolationVectorSpaceCurve =
  dimension :: nat
  manager :: "Coefficient CoefficientManager"

definition getMaxTime :: "Time \<Rightarrow> LinearInterpolationVectorSpaceCurve \<Rightarrow> Time" where
  "getMaxTime sentinel c = getBackTime sentinel (manager c)"

definition getMinTime :: "Time \<Rightarrow> LinearInterpolationVectorSpaceCurve \<Rightarrow> Time" where
  "getMinTime sentinel c = getFrontTime sentinel (manager c)"

text \<open>
  The loop of \<open>fitCurve\<close>: each value is checked against the size of the first and
  wrapped into a coefficient.
\<close>

fun wrapValues :: "nat \<Rightarrow> VectorXd list \<Rightarrow> error + Coefficient list" where
  "wrapValues vsize [] = Inr []"
| "wrapValues vsize (v # vs) =
     (if vsize \<noteq> length v then Inl (CheckFailed ''The vectors must be uniform length.'')
      else (case wrapValues vsize vs of
              Inl e \<Rightarrow> Inl e
            | Inr cs \<Rightarrow> Inr (Coefficient v # cs)))"

text \<open>
  \<open>fitCurve\<close>. The first check streams no text. The manager is cleared before the
  values are checked and before the batch is inserted, so a failure of either leaves the
  cleared manager behind.
\<close>

definition fitCurve :: "Time list \<Rightarrow> VectorXd list \<Rightarrow> LinearInterpolationVectorSpaceCurve
    \<Rightarrow> (unit, LinearInterpolationVectorSpaceCurve) call" where
  "fitCurve ts vs c =
     (if length ts \<noteq> length vs then (Inl (CheckFailed ''''), c)
      else if 0 < length ts then
        (let c1 = c\<lparr>manager := clear (manager c)\<rparr>;
             vsize = length (vs ! 0)
         in case wrapValues vsize vs of
              Inl e \<Rightarrow> (Inl e, c1)
            | Inr coefficients \<Rightarrow>
                (case insertCoefficients ts coefficients (manager c1) of
                   (Inl e, m) \<Rightarrow> (Inl e, c1\<lparr>manager := m\<rparr>)
                 | (Inr outKeys, m) \<Rightarrow> (Inr (), c1\<lparr>manager := m\<rparr>)))
      else (Inr (), c))"

text \<open>
  \<open>evaluate\<close>: a failed lookup is a failed \<open>CHECK\<close>; otherwise the pair is blended.
  Both differences are taken in \<open>Time\<close> and then converted to \<open>double\<close>.
\<close>

definition evaluate :: "Time \<Rightarrow> LinearInterpolationVectorSpaceCurve
    \<Rightarrow> (VectorXd, LinearInterpolationVectorSpaceCurve) call" where
  "evaluate t c =
     (case getCoefficientsAt t (manager c) of
        None \<Rightarrow> (Inl (CheckFailed ''Unable to get the coefficients at time ''), c)
      | Some (first, second) \<Rightarrow>
          (let dt = Time_sub (time second) (time first);
               t' = Time_sub (time second) t;
               alpha = ddiv_Time t' dt
           in (vadd (smul alpha (getValue (coefficient first)))
                    (smul (dsub (Some 1) alpha) (getValue (coefficient second))), c)))"

text \<open>The four methods whose body is \<open>CHECK(false) << "Not implemented"\<close>.\<close>

definition extend_lin :: "Time list \<Rightarrow> VectorXd list \<Rightarrow> LinearInterpolationVectorSpaceCurve
    \<Rightarrow> (unit, LinearInterpolationVectorSpaceCurve) call" where
  "extend_lin ts vs c = (Inl (CheckFailed ''Not implemented''), c)"

definition evaluateDerivative_lin :: "Time \<Rightarrow> nat \<Rightarrow> LinearInterpolationVectorSpaceCurve
    \<Rightarrow> (VectorXd, LinearInterpolationVectorSpaceCurve) call" where
  "evaluateDerivative_lin t derivativeOrder c = (Inl (CheckFailed ''Not implemented''), c)"

definition getEvaluator :: "Time \<Rightarrow> LinearInterpolationVectorSpaceCurve
    \<Rightarrow> (unit, LinearInterpolationVectorSpaceCurve) call" where
  "getEvaluator t c = (Inl (CheckFailed ''Not implemented''), c)"

definition setTimeRange :: "Time \<Rightarrow> Time \<Rightarrow> LinearInterpolationVectorSpaceCurve
    \<Rightarrow> (unit, LinearInterpolationVectorSpaceCurve) call" where
  "setTimeRange minTime maxTime c = (Inl (CheckFailed ''Not implemented''), c)"

section \<open>Discrete SE3 curve and its sampling policy\<close>

text \<open>
  Modelled from the spec: the policy class is declared outside the sources; \<open>extend\<close>
  reads and writes the two counters. They are machine integers, modelled as \<open>int\<close>:
  the properties below keep the counter between zero and \<open>minimumMeasurements\<close>,
  where its increment cannot overflow.
\<close>

record SamplingPolicy =
  measurementsSinceLastExtend :: int
  minimumMeasurements :: int
  minSamplingPeriod :: Time

text \<open>
  The curve owns one manager and one policy. Its value type is opaque to the curve and
  is the type parameter \<open>'v\<close>.
\<close>

record 'v DiscreteSE3Curve =
  se3_manager :: "'v CoefficientManager"
  discretePolicy :: SamplingPolicy

text \<open>
  Modelled from the spec: the value type's tangent space comes from the rigid
  transformation library, which is outside the sources. \<open>Local a b\<close> is the tangent
  vector from \<open>a\<close> to \<open>b\<close> and \<open>tangentDim\<close> its size.
\<close>

record 'v ValueTraits =
  Local :: "'v \<Rightarrow> 'v \<Rightarrow> VectorXd"
  tangentDim :: nat

text \<open>Modelled from the spec: \<open>isEmpty\<close> is declared in the sources, its body is not.\<close>

definition isEmpty :: "'v DiscreteSE3Curve \<Rightarrow> bool" where
  "isEmpty c = empty_m (se3_manager c)"

text \<open>
  Modelled from the spec: \<open>size\<close> is declared in the sources with result type \<open>int\<close>,
  its body is not.
\<close>

definition size_c :: "'v DiscreteSE3Curve \<Rightarrow> int" where
  "size_c c = int (size_m (se3_manager c))"

text \<open>A call on the curve's manager, seen as a call on the curve.\<close>

definition on_manager :: "('v CoefficientManager \<Rightarrow> ('a, 'v CoefficientManager) call)
    \<Rightarrow> 'v DiscreteSE3Curve \<Rightarrow> ('a, 'v DiscreteSE3Curve) call" where
  "on_manager f c = (case f (se3_manager c) of (r, m) \<Rightarrow> (r, c\<lparr>se3_manager := m\<rparr>))"

definition setCounter :: "int \<Rightarrow> 'v DiscreteSE3Curve \<Rightarrow> 'v DiscreteSE3Curve" where
  "setCounter n c = c\<lparr>discretePolicy := (discretePolicy c)\<lparr>measurementsSinceLastExtend := n\<rparr>\<rparr>"

text \<open>
  \<open>SamplingPolicy::extend\<close>, called on the curve's own policy. The result lists the
  keys the call appends to \<open>outKeys\<close>. Reading \<open>values[0]\<close> from an empty vector is
  undefined behaviour. A manager call that fails ends the call where it stands, after
  the counter's increment and before its reset.
\<close>

definition extend :: "Time list \<Rightarrow> 'v list \<Rightarrow> 'v DiscreteSE3Curve
    \<Rightarrow> (Key list, 'v DiscreteSE3Curve) call" where
  "extend ts vs c =
     (if length ts \<noteq> 1 then on_manager (insertCoefficients ts vs) c
      else if isEmpty c \<or> size_c c = 1 then on_manager (insertCoefficients ts vs) c
      else if minimumMeasurements (discretePolicy c) = 1 then
        (if vs = [] then (Inl UndefinedBehaviour, c)
         else on_manager (addCoefficientAtEnd (ts ! 0) (vs ! 0)) c)
      else
        (let c1 = setCounter (measurementsSinceLastExtend (discretePolicy c) + 1) c in
         if vs = [] then (Inl UndefinedBehaviour, c1)
         else
           (case (if measurementsSinceLastExtend (discretePolicy c1) = 1
                  then on_manager (addCoefficientAtEnd (ts ! 0) (vs ! 0)) c1
                  else (let itPrev = coefficientEnd (se3_manager c1) - 1 in
                        case on_manager (modifyCoefficient itPrev (ts ! 0) (vs ! 0)) c1 of
                          (Inl e, c2) \<Rightarrow> (Inl e, c2)
                        | (Inr u, c2) \<Rightarrow> (Inr [], c2))) of
              (Inl e, c2) \<Rightarrow> (Inl e, c2)
            | (Inr ks, c2) \<Rightarrow>
                (Inr ks,
                 if measurementsSinceLastExtend (discretePolicy c2)
                      = minimumMeasurements (discretePolicy c2)
                 then setCounter 0 c2 else c2))))"

text \<open>
  Modelled from the spec: a tangent vector divided by a time difference, as the exact
  quotient that the specification's slope denotes.
\<close>

definition vdiv_Time :: "VectorXd \<Rightarrow> Time \<Rightarrow> VectorXd" where
  "vdiv_Time v dt =
     map (\<lambda>x. case x of None \<Rightarrow> None
               | Some r \<Rightarrow> if dt = 0 then None else Some (r / real_of_int dt)) v"

text \<open>
  Modelled from the spec: the discrete slope between two coefficients, the tangent
  vector from the first to the second over the time between them.
\<close>

definition slope :: "'v ValueTraits \<Rightarrow> 'v KeyCoefficientTime \<Rightarrow> 'v KeyCoefficientTime
    \<Rightarrow> VectorXd" where
  "slope tr e0 e1 = vdiv_Time (Local tr (coefficient e0) (coefficient e1)) (time e1 - time e0)"

text \<open>
  Modelled from the spec: the body of \<open>DiscreteSE3Curve::evaluateDerivative\<close> is not in
  the sources, only its declaration. It fails when the curve has fewer than two
  coefficients and when the time is out of bounds. For order one it is the slope between
  the two adjacent coefficients the manager selects; for every higher order it is zero.
  The comment on the declaration states the same rule. The specification gives no
  result for order zero; the model fails there.
\<close>

definition evaluateDerivative :: "'v ValueTraits \<Rightarrow> Time \<Rightarrow> nat \<Rightarrow> 'v DiscreteSE3Curve
    \<Rightarrow> (VectorXd, 'v DiscreteSE3Curve) call" where
  "evaluateDerivative tr t derivativeOrder c =
     (if size_m (se3_manager c) < 2 then (Inl NotFound, c)
      else (case getCoefficientsAt t (se3_manager c) of
              None \<Rightarrow> (Inl NotFound, c)
            | Some (e0, e1) \<Rightarrow>
                if derivativeOrder = 1 then (Inr (slope tr e0 e1), c)
                else if 1 < derivativeOrder then (Inr (replicate (tangentDim tr) (Some 0)), c)
                else (Inl NotFound, c)))"

section \<open>Views of a curve and the specification's formulas\<close>

text \<open>The stored times, values and keys of a vector space curve, in time order.\<close>

definition times_of :: "LinearInterpolationVectorSpaceCurve \<Rightarrow> Time list" where
  "times_of c = map time (timeToCoefficient (manager c))"

definition values_of :: "LinearInterpolationVectorSpaceCurve \<Rightarrow> VectorXd list" where
  "values_of c = map (\<lambda>e. getValue (coefficient e)) (timeToCoefficient (manager c))"

definition keys_of :: "LinearInterpolationVectorSpaceCurve \<Rightarrow> Key list" where
  "keys_of c = map key (timeToCoefficient (manager c))"

text \<open>The values of a batch all have the size of the first.\<close>

definition uniform :: "VectorXd list \<Rightarrow> bool" where
  "uniform vs = list_all (\<lambda>v. length v = length (vs ! 0)) vs"

text \<open>Every stored vector has the size of the first one and only finite components.\<close>

definition finiteUniform :: "LinearInterpolationVectorSpaceCurve \<Rightarrow> bool" where
  "finiteUniform c =
     (\<forall>e \<in> set (timeToCoefficient (manager c)).
        length (getValue (coefficient e))
          = length (getValue (coefficient (timeToCoefficient (manager c) ! 0)))
        \<and> None \<notin> set (getValue (coefficient e)))"

text \<open>Every stored time is a 64-bit value.\<close>

definition timesInRange :: "LinearInterpolationVectorSpaceCurve \<Rightarrow> bool" where
  "timesInRange c =
     (\<forall>e \<in> set (timeToCoefficient (manager c)). - (2 ^ 63) \<le> time e \<and> time e < 2 ^ 63)"

text \<open>
  The interpolation formula in the arithmetic of the code:
  \<open>alpha * v0 + (1 - alpha) * v1\<close>, component by component, every operation rounded.
\<close>

definition interpolate :: "double \<Rightarrow> VectorXd \<Rightarrow> VectorXd \<Rightarrow> VectorXd" where
  "interpolate alpha v0 v1 =
     map2 (\<lambda>x y. dadd (dmul alpha x) (dmul (dsub (Some 1) alpha) y)) v0 v1"

text \<open>
  The interpolation formula as the specification words it, over the real numbers:
  \<open>alpha * v0 + (1 - alpha) * v1\<close>, component by component.
\<close>

definition lerp :: "real \<Rightarrow> real list \<Rightarrow> real list \<Rightarrow> real list" where
  "lerp alpha v0 v1 = map2 (\<lambda>x y. alpha * x + (1 - alpha) * y) v0 v1"

text \<open>The policy's counter and the stored entries of a discrete curve.\<close>

definition counter_of :: "'v DiscreteSE3Curve \<Rightarrow> int" where
  "counter_of c = measurementsSinceLastExtend (discretePolicy c)"

definition entries_of :: "'v DiscreteSE3Curve \<Rightarrow> 'v KeyCoefficientTime list" where
  "entries_of c = timeToCoefficient (se3_manager c)"

text \<open>The condition under which \<open>extend\<close> reaches its decimation branch.\<close>

definition decimating :: "Time list \<Rightarrow> 'v DiscreteSE3Curve \<Rightarrow> bool" where
  "decimating ts c = (length ts = 1 \<and> \<not> isEmpty c \<and> size_c c \<noteq> 1
      \<and> minimumMeasurements (discretePolicy c) \<noteq> 1)"

section \<open>Example curves\<close>

definition entryA :: "Coefficient KeyCoefficientTime" where
  "entryA = \<lparr>key = 0, coefficient = Coefficient [Some 0], time = 0\<rparr>"

definition entryB :: "Coefficient KeyCoefficientTime" where
  "entryB = \<lparr>key = 1, coefficient = Coefficient [Some 10], time = 10\<rparr>"

text \<open>The specification's example: coefficients \<open>(0, 0.0)\<close> and \<open>(10, 10.0)\<close>.\<close>

definition twoPointCurve :: LinearInterpolationVectorSpaceCurve where
  "twoPointCurve = \<lparr>dimension = 1,
     manager = \<lparr>timeToCoefficient = [entryA, entryB], nextKey = 2\<rparr>\<rparr>"

text \<open>Two coefficients at the far ends of the time range: \<open>(-(2^63 - 1), 0.0)\<close> and
  \<open>(2^63 - 1, 1.0)\<close>.\<close>

definition farA :: "Coefficient KeyCoefficientTime" where
  "farA = \<lparr>key = 0, coefficient = Coefficient [Some 0], time = - (2 ^ 63 - 1)\<rparr>"

definition farB :: "Coefficient KeyCoefficientTime" where
  "farB = \<lparr>key = 1, coefficient = Coefficient [Some 1], time = 2 ^ 63 - 1\<rparr>"

definition farCurve :: LinearInterpolationVectorSpaceCurve where
  "farCurve = \<lparr>dimension = 1,
     manager = \<lparr>timeToCoefficient = [farA, farB], nextKey = 2\<rparr>\<rparr>"

text \<open>Coefficients \<open>(0, 0.0)\<close> and \<open>(3, 1.0)\<close>: a third of the way is not a double.\<close>

definition thirdA :: "Coefficient KeyCoefficientTime" where
  "thirdA = \<lparr>key = 0, coefficient = Coefficient [Some 0], time = 0\<rparr>"

definition thirdB :: "Coefficient KeyCoefficientTime" where
  "thirdB = \<lparr>key = 1, coefficient = Coefficient [Some 1], time = 3\<rparr>"

definition thirdsCurve :: LinearInterpolationVectorSpaceCurve where
  "thirdsCurve = \<lparr>dimension = 1,
     manager = \<lparr>timeToCoefficient = [thirdA, thirdB], nextKey = 2\<rparr>\<rparr>"

definition onlyEntry :: "Coefficient KeyCoefficientTime" where
  "onlyEntry = \<lparr>key = 0, coefficient = Coefficient [Some 3], time = 7\<rparr>"

definition onePointCurve :: LinearInterpolationVectorSpaceCurve where
  "onePointCurve = \<lparr>dimension = 1,
     manager = \<lparr>timeToCoefficient = [onlyEntry], nextKey = 1\<rparr>\<rparr>"

definition emptyCurve :: LinearInterpolationVectorSpaceCurve where
  "emptyCurve = \<lparr>dimension = 1, manager = \<lparr>timeToCoefficient = [], nextKey = 0\<rparr>\<rparr>"

text \<open>Scalars as a value type: the tangent vector from \<open>a\<close> to \<open>b\<close> is \<open>b - a\<close>.\<close>

definition scalarTraits :: "real ValueTraits" where
  "scalarTraits = \<lparr>Local = (\<lambda>a b. [Some (b - a)]), tangentDim = 1\<rparr>"

text \<open>
  The specification's derivative example: times \<open>0, 5, 10\<close> with values \<open>0, 10, 40\<close>,
  under a policy that keeps one coefficient per three measurements.
\<close>

definition threePointCurve :: "real DiscreteSE3Curve" where
  "threePointCurve = \<lparr>se3_manager = \<lparr>timeToCoefficient =
        [\<lparr>key = 0, coefficient = 0, time = 0\<rparr>,
         \<lparr>key = 1, coefficient = 10, time = 5\<rparr>,
         \<lparr>key = 2, coefficient = 40, time = 10\<rparr>], nextKey = 3\<rparr>,
      discretePolicy = \<lparr>measurementsSinceLastExtend = 0, minimumMeasurements = 3,
        minSamplingPeriod = 0\<rparr>\<rparr>"

section \<open>The manager's lookup on a time-ordered map\<close>

lemma bracket_here:
  assumes "sorted_wrt (<) (map time (e0 # e1 # ys))" "time e0 \<le> t" "t \<le> time e1"
  shows "bracket t e0 e1 ys =
     (if t < time e1 then Some (e0, e1)
      else case ys of [] \<Rightarrow> Some (e0, e1) | e2 # zs \<Rightarrow> Some (e1, e2))"
proof (cases ys)
  case Nil
  with assms show ?thesis by simp
next
  case (Cons e2 zs)
  with assms have "t < time e2" by simp
  with Cons assms show ?thesis by (cases zs) auto
qed

lemma bracket_skip:
  assumes "sorted_wrt (<) (map time (a # b # zs @ e0 # e1 # ys))" "time e0 \<le> t"
  shows "bracket t a b (zs @ e0 # e1 # ys) = bracket t e0 e1 ys"
  using assms
proof (induction zs arbitrary: a b)
  case Nil
  then have "time b < time e0" by simp
  with Nil show ?case by simp
next
  case (Cons z zs)
  then have "time b < time e0" by simp
  with Cons.prems
  have "bracket t a b ((z # zs) @ e0 # e1 # ys) = bracket t b z (zs @ e0 # e1 # ys)"
    by simp
  also have "\<dots> = bracket t e0 e1 ys"
    using Cons.prems by (intro Cons.IH) simp_all
  finally show ?case .
qed

lemma getCoefficientsAt_list_skip:
  assumes "sorted_wrt (<) (map time (xs @ e0 # e1 # ys))" "time e0 \<le> t"
  shows "getCoefficientsAt_list t (xs @ e0 # e1 # ys) = bracket t e0 e1 ys"
proof (cases xs)
  case Nil
  with assms show ?thesis by simp
next
  case (Cons a as)
  note xs = Cons
  show ?thesis
  proof (cases as)
    case Nil
    with xs assms show ?thesis by auto
  next
    case (Cons b zs)
    with xs assms have "time a < time e0" by simp
    with xs Cons assms bracket_skip [of a b zs e0 e1 ys t] show ?thesis by simp
  qed
qed

lemma bracket_sound:
  assumes "sorted_wrt (<) (map time (a # b # zs))" "time a \<le> t"
    and "bracket t a b zs = Some (p, q)"
  shows "time p < time q \<and> time p \<le> t \<and> t \<le> time q
     \<and> (\<exists>xs ys. a # b # zs = xs @ p # q # ys)"
  using assms
proof (induction zs arbitrary: a b)
  case Nil
  then show ?case by (auto split: if_splits)
next
  case (Cons z zs)
  show ?case
  proof (cases "t < time b")
    case True
    with Cons.prems have "p = a" "q = b" by simp_all
    with Cons.prems True show ?thesis by auto
  next
    case False
    with Cons.prems have b: "bracket t b z zs = Some (p, q)" by simp
    from Cons.prems have "sorted_wrt (<) (map time (b # z # zs))" by simp
    from Cons.IH [OF this _ b] False obtain xs ys where
      bounds: "time p < time q \<and> time p \<le> t \<and> t \<le> time q"
      and split: "b # z # zs = xs @ p # q # ys" by auto
    from split have "a # b # z # zs = (a # xs) @ p # q # ys" by simp
    with bounds show ?thesis by blast
  qed
qed

lemma bracket_complete:
  assumes "sorted_wrt (<) (map time (a # b # zs))" "time a \<le> t"
    and "t \<le> time (last (a # b # zs))"
  shows "bracket t a b zs \<noteq> None"
  using assms
proof (induction zs arbitrary: a b)
  case Nil
  then show ?case by simp
next
  case (Cons z zs)
  show ?case
  proof (cases "t < time b")
    case True
    then show ?thesis by simp
  next
    case False
    moreover from Cons.prems have "sorted_wrt (<) (map time (b # z # zs))" by simp
    moreover from Cons.prems have "t \<le> time (last (b # z # zs))" by simp
    ultimately show ?thesis using Cons.IH [of b z] by simp
  qed
qed

lemma getCoefficientsAt_sound:
  assumes "ordered m" "2 \<le> size_m m" "getCoefficientsAt t m = Some (p, q)"
  shows "time p < time q \<and> time p \<le> t \<and> t \<le> time q
     \<and> (\<exists>xs ys. timeToCoefficient m = xs @ p # q # ys)"
proof -
  from assms(2) obtain a b zs where es: "timeToCoefficient m = a # b # zs"
    by (cases "timeToCoefficient m"; cases "tl (timeToCoefficient m)") (auto simp: size_m_def)
  with assms(3) have "time a \<le> t" "bracket t a b zs = Some (p, q)"
    by (auto simp: getCoefficientsAt_def split: if_splits)
  moreover from assms(1) es have "sorted_wrt (<) (map time (a # b # zs))"
    by (simp add: ordered_def)
  ultimately show ?thesis using bracket_sound [of a b zs t p q] es by simp
qed

lemma getCoefficientsAt_in_range:
  assumes "ordered m" "2 \<le> size_m m" "getFrontTime s m \<le> t" "t \<le> getBackTime s m"
  shows "\<exists>p q. getCoefficientsAt t m = Some (p, q)"
proof -
  from assms(2) obtain a b zs where es: "timeToCoefficient m = a # b # zs"
    by (cases "timeToCoefficient m"; cases "tl (timeToCoefficient m)") (auto simp: size_m_def)
  from assms es have "sorted_wrt (<) (map time (a # b # zs))" "time a \<le> t"
    "t \<le> time (last (a # b # zs))"
    by (simp_all add: ordered_def getFrontTime_def getBackTime_def)
  from bracket_complete [OF this] es assms(3) show ?thesis
    by (auto simp: getCoefficientsAt_def getFrontTime_def)
qed

lemma getCoefficientsAt_adjacent:
  assumes "ordered m" "timeToCoefficient m = xs @ e0 # e1 # ys" "time e0 \<le> t" "t \<le> time e1"
  shows "getCoefficientsAt t m =
     (if t < time e1 then Some (e0, e1)
      else case ys of [] \<Rightarrow> Some (e0, e1) | e2 # zs \<Rightarrow> Some (e1, e2))"
proof -
  from assms(1,2) have srt: "sorted_wrt (<) (map time (xs @ e0 # e1 # ys))"
    by (simp add: ordered_def)
  then have "sorted_wrt (<) (map time (e0 # e1 # ys))"
    by (simp add: sorted_wrt_append)
  from bracket_here [OF this assms(3,4)] getCoefficientsAt_list_skip [OF srt assms(3)]
  show ?thesis by (simp add: getCoefficientsAt_def assms(2))
qed

section \<open>Rounding and 64-bit arithmetic\<close>

lemma pow2_powi: "pow2 e = 2 powi e"
  by (simp add: pow2_def power_int_def field_simps)

lemma pow2_pos: "0 < pow2 e"
  by (simp add: pow2_powi)

lemma round_even_ge_floor: "\<lfloor>y\<rfloor> \<le> round_even y"
  by (simp add: round_even_def Let_def)

lemma round_to_double_zero: "round_to_double 0 = Some 0"
  by (simp add: round_to_double_def)

lemma round_to_double_one: "round_to_double 1 = Some 1"
  by code_simp

lemma double_of_Time_zero: "double_of_Time 0 = Some 0"
  by (simp add: double_of_Time_def round_to_double_zero)

text \<open>The conversion of a 64-bit integer other than zero is finite and not zero.\<close>

lemma double_of_Time_nonzero:
  assumes "d \<noteq> 0" "- (2 ^ 63) \<le> d" "d < 2 ^ 63"
  shows "\<exists>y. double_of_Time d = Some y \<and> y \<noteq> 0"
proof -
  define m where "m = \<bar>d\<bar>"
  define e where "e = bitlen m - 1"
  define r where "r = round_even (real_of_int m / pow2 (e - 52))"
  from assms have m: "0 < m" "m < 2 ^ 64" by (simp_all add: m_def)
  from bitlen_bounds [OF m(1)] have lo: "2 ^ nat e \<le> m"
    by (simp add: e_def)
  from m(1) have e0: "0 \<le> e" by (simp add: e_def bitlen_alt_def)
  have "bitlen m \<le> 64" using m by (simp add: bitlen_le_iff_power)
  then have e63: "e \<le> 63" by (simp add: e_def)
  have abs: "\<bar>real_of_int d\<bar> = real_of_int m" by (simp add: m_def)
  have il: "ilog2 (real_of_int m) = e"
    using m(1) by (simp add: ilog2_def e_def)
  have "pow2 (e - 52) * 2 ^ 52 = 2 powi (e - 52) * 2 powi 52"
    by (simp add: pow2_powi)
  also have "\<dots> = (2::real) powi (e - 52 + 52)"
    by (subst power_int_add) simp_all
  also have "\<dots> = 2 ^ nat e"
    using e0 by (simp add: power_int_def)
  finally have pp: "pow2 (e - 52) * 2 ^ 52 = 2 ^ nat e" .
  define P where "P = (2::real) ^ 52"
  have P1: "1 \<le> P" by (simp add: P_def)
  from lo have "real_of_int (2 ^ nat e) \<le> real_of_int m" by (simp only: of_int_le_iff)
  then have lo': "(2::real) ^ nat e \<le> real_of_int m" by simp
  have mpos: "0 < real_of_int m" using m(1) by simp
  have "real_of_int m * 1 \<le> real_of_int m * P"
    using P1 mpos by (intro mult_left_mono) simp_all
  then have step: "real_of_int m \<le> real_of_int m * P" by simp
  have "(2::real) ^ nat e \<le> real_of_int m * P" by (rule order_trans [OF lo' step])
  then have "pow2 (e - 52) * P \<le> real_of_int m * P"
    using pp by (simp add: P_def)
  then have "pow2 (e - 52) \<le> real_of_int m"
    using P1 by (simp add: mult_le_cancel_right)
  then have "1 \<le> real_of_int m / pow2 (e - 52)"
    using pow2_pos [of "e - 52"] by (simp add: field_simps)
  then have fl: "1 \<le> \<lfloor>real_of_int m / pow2 (e - 52)\<rfloor>" by (simp add: le_floor_iff)
  have r: "1 \<le> r"
    unfolding r_def by (rule order_trans [OF fl round_even_ge_floor])
  have "double_of_Time d = Some (sgn (real_of_int d) * real_of_int r * pow2 (e - 52))"
    using assms(1) e0 e63
    by (simp add: double_of_Time_def round_to_double_def abs il Let_def r_def max_def)
  moreover have "sgn (real_of_int d) * real_of_int r * pow2 (e - 52) \<noteq> 0"
    using assms(1) r pow2_pos [of "e - 52"] by (simp add: sgn_if)
  ultimately show ?thesis by blast
qed

lemma wrap_Time_id: "- (2 ^ 63) \<le> x \<Longrightarrow> x < 2 ^ 63 \<Longrightarrow> wrap_Time x = x"
  by (simp add: wrap_Time_def)

lemma wrap_Time_range: "- (2 ^ 63) \<le> wrap_Time x \<and> wrap_Time x < 2 ^ 63"
proof -
  have "0 \<le> (x + 2 ^ 63) mod 2 ^ 64" "(x + 2 ^ 63) mod 2 ^ 64 < (2 ^ 64 :: int)"
    by simp_all
  then show ?thesis by (simp add: wrap_Time_def)
qed

lemma wrap_shifted:
  fixes x H :: int
  assumes "0 < x" "x < 2 * H"
  shows "(x + H) mod (2 * H) - H \<noteq> 0"
proof (cases "x < H")
  case True
  with assms have "(x + H) mod (2 * H) = x + H" by (intro mod_pos_pos_trivial) simp_all
  with assms show ?thesis by simp
next
  case False
  have "x + H = x - H + 2 * H" by simp
  then have "(x + H) mod (2 * H) = (x - H + 2 * H) mod (2 * H)" by (rule arg_cong)
  also have "\<dots> = (x - H) mod (2 * H)" by (simp only: mod_add_self2)
  also have "\<dots> = x - H" using False assms by (intro mod_pos_pos_trivial) simp_all
  finally show ?thesis using assms by simp
qed

lemma wrap_Time_nonzero:
  assumes "0 < x" "x < 2 ^ 64"
  shows "wrap_Time x \<noteq> 0"
  using wrap_shifted [of x "2 ^ 63"] assms by (simp add: wrap_Time_def)

lemma ddiv_Time_same:
  assumes "d \<noteq> 0" "- (2 ^ 63) \<le> d" "d < 2 ^ 63"
  shows "ddiv_Time d d = Some 1"
proof -
  from double_of_Time_nonzero [OF assms] obtain y where "double_of_Time d = Some y" "y \<noteq> 0"
    by blast
  then show ?thesis by (simp add: ddiv_Time_def round_to_double_one)
qed

lemma ddiv_Time_zero:
  assumes "d \<noteq> 0" "- (2 ^ 63) \<le> d" "d < 2 ^ 63"
  shows "ddiv_Time 0 d = Some 0"
proof -
  from double_of_Time_nonzero [OF assms] obtain y where "double_of_Time d = Some y" "y \<noteq> 0"
    by blast
  then show ?thesis by (simp add: ddiv_Time_def double_of_Time_zero round_to_double_zero)
qed

section \<open>Evaluation of the vector space curve\<close>

lemma blend_vec:
  assumes "length u = length w"
  shows "vadd (smul alpha u) (smul (dsub (Some 1) alpha) w) = Inr (interpolate alpha u w)"
proof -
  have "map2 dadd (map (dmul alpha) u) (map (dmul beta) w)
      = map2 (\<lambda>x y. dadd (dmul alpha x) (dmul beta y)) u w" for beta
    using assms by (induction u w rule: list_induct2) simp_all
  with assms show ?thesis by (simp add: vadd_def smul_def interpolate_def)
qed

lemma evaluate_pair:
  assumes "getCoefficientsAt t (manager c) = Some (p, q)"
    and "length (getValue (coefficient p)) = length (getValue (coefficient q))"
  shows "evaluate t c =
     (Inr (interpolate (ddiv_Time (Time_sub (time q) t) (Time_sub (time q) (time p)))
             (getValue (coefficient p)) (getValue (coefficient q))), c)"
  using assms by (simp add: evaluate_def blend_vec)

text \<open>
  With weight one the blend is the first vector, with weight zero the second, each
  component rounded as the two operations on it round it.
\<close>

lemma interpolate_one:
  assumes "length a = length b"
  shows "interpolate (Some 1) (map Some a) (map Some b)
     = map (\<lambda>x. case round_to_double x of None \<Rightarrow> None | Some r \<Rightarrow> round_to_double r) a"
  unfolding interpolate_def using assms
  by (induction a b rule: list_induct2)
     (simp_all add: dadd_def dmul_def dsub_def round_to_double_zero split: option.split)

lemma interpolate_zero:
  assumes "length a = length b"
  shows "interpolate (Some 0) (map Some a) (map Some b)
     = map (\<lambda>x. case round_to_double x of None \<Rightarrow> None | Some r \<Rightarrow> round_to_double r) b"
  unfolding interpolate_def using assms
  by (induction a b rule: list_induct2)
     (simp_all add: dadd_def dmul_def dsub_def round_to_double_zero round_to_double_one
        split: option.split)

lemma finite_vec: "None \<notin> set v \<Longrightarrow> \<exists>a. v = map Some a"
proof (induction v)
  case Nil
  then show ?case by simp
next
  case (Cons x v)
  then obtain a where "v = map Some a" by auto
  moreover from Cons.prems obtain r where "x = Some r" by (cases x) auto
  ultimately have "x # v = map Some (r # a)" by simp
  then show ?case by (rule exI)
qed

text \<open>
  Whatever the lookup answers on a degenerate query, \<open>evaluate\<close> has no path that
  hands a stored value back: a failed lookup aborts, and a pair of equal times is
  divided by zero.
\<close>

lemma evaluate_lookup_failure:
  "getCoefficientsAt t (manager c) = None
   \<Longrightarrow> evaluate t c = (Inl (CheckFailed ''Unable to get the coefficients at time ''), c)"
  by (simp add: evaluate_def)

lemma evaluate_degenerate_pair:
  assumes "getCoefficientsAt t (manager c) = Some (p, q)" "time p = time q"
    and "length (getValue (coefficient p)) = length (getValue (coefficient q))"
  shows "evaluate t c = (Inr (replicate (length (getValue (coefficient p))) None), c)"
proof -
  have z: "Time_sub (time q) (time p) = 0"
    using assms(2) by (simp add: Time_sub_def wrap_Time_def)
  have d: "ddiv_Time x 0 = None" for x
    by (simp add: ddiv_Time_def double_of_Time_zero split: option.split)
  have "interpolate None u w = replicate (length u) None" if "length u = length w"
    for u w :: VectorXd
    unfolding interpolate_def using that
    by (induction u w rule: list_induct2) (simp_all add: dadd_def dmul_def)
  with assms(3) show ?thesis
    by (simp add: evaluate_pair [OF assms(1,3)] z d)
qed

text \<open>
  C2, as amended. On a time-ordered curve whose stored times are 64-bit values and whose
  stored vectors are finite and of one size, for every two adjacent coefficients
  \<open>(t0, v0)\<close>, \<open>(t1, v1)\<close> whose difference \<open>t1 - t0\<close> does not overflow \<open>Time\<close> and
  every query time with \<open>t0 \<le> time \<le> t1\<close>, the times satisfy \<open>t0 < t1\<close> and
  \<open>evaluate\<close> returns \<open>alpha * v0 + (1 - alpha) * v1\<close> in double arithmetic, every
  operation rounded, with \<open>alpha = double(t1 - time) / double(t1 - t0)\<close>; the curve is
  unchanged. With coefficients \<open>(0, 0.0)\<close> and \<open>(10, 10.0)\<close> this gives \<open>5.0\<close> at time
  5, \<open>0.0\<close> at time 0 and \<open>10.0\<close> at time 10.
\<close>

theorem evaluate_interpolates:
  assumes ord: "ordered (manager c)"
    and fin: "finiteUniform c"
    and rng: "timesInRange c"
    and es: "timeToCoefficient (manager c) = xs @ e0 # e1 # ys"
    and t: "time e0 \<le> t" "t \<le> time e1"
    and small: "time e1 - time e0 < 2 ^ 63"
    and v: "getValue (coefficient e0) = map Some v0" "getValue (coefficient e1) = map Some v1"
  shows "time e0 < time e1 \<and>
     evaluate t c =
       (Inr (interpolate (ddiv_Time (time e1 - t) (time e1 - time e0))
               (map Some v0) (map Some v1)), c)"
proof -
  from ord es have lt: "time e0 < time e1"
    by (simp add: ordered_def sorted_wrt_append)
  have sel: "getCoefficientsAt t (manager c) =
     (if t < time e1 then Some (e0, e1)
      else case ys of [] \<Rightarrow> Some (e0, e1) | e2 # zs \<Rightarrow> Some (e1, e2))"
    using ord es t by (rule getCoefficientsAt_adjacent)
  define n where "n = length (getValue (coefficient (timeToCoefficient (manager c) ! 0)))"
  from fin es v have len: "length v0 = n" "length v1 = n"
    unfolding n_def by (auto simp: finiteUniform_def dest: arg_cong [where f = length])
  have sub: "Time_sub (time e1) t = time e1 - t" "Time_sub (time e1) (time e0) = time e1 - time e0"
    using t lt small by (simp_all add: Time_sub_def wrap_Time_id)
  have direct: "getCoefficientsAt t (manager c) = Some (e0, e1) \<Longrightarrow> ?thesis"
    using evaluate_pair [of t c e0 e1] len lt by (simp add: v sub)
  show ?thesis
  proof (cases "t < time e1")
    case True
    with sel direct show ?thesis by simp
  next
    case False
    with t have teq: "t = time e1" by simp
    show ?thesis
    proof (cases ys)
      case Nil
      with sel False direct show ?thesis by simp
    next
      case (Cons e2 zs)
      with sel False have pair: "getCoefficientsAt t (manager c) = Some (e1, e2)" by simp
      from ord es Cons have lt2: "time e1 < time e2"
        by (simp add: ordered_def sorted_wrt_append)
      from fin es Cons have "length (getValue (coefficient e2)) = n"
        "None \<notin> set (getValue (coefficient e2))"
        unfolding n_def by (simp_all add: finiteUniform_def)
      with finite_vec obtain v2 where v2: "getValue (coefficient e2) = map Some v2"
        "length v2 = n" by fastforce
      from rng es Cons have r1: "- (2 ^ 63) \<le> time e1" "time e1 < 2 ^ 63"
        and r2: "- (2 ^ 63) \<le> time e2" "time e2 < 2 ^ 63"
        by (simp_all add: timesInRange_def)
      define d where "d = Time_sub (time e2) (time e1)"
      have "0 < time e2 - time e1" "time e2 - time e1 < 2 ^ 64"
        using lt2 r1 r2 by simp_all
      then have d0: "d \<noteq> 0"
        unfolding d_def Time_sub_def by (rule wrap_Time_nonzero)
      have dr: "- (2 ^ 63) \<le> d" "d < 2 ^ 63"
        using wrap_Time_range [of "time e2 - time e1"] by (simp_all add: d_def Time_sub_def)
      have one: "ddiv_Time d d = Some 1"
        using d0 dr by (rule ddiv_Time_same)
      have "evaluate t c = (Inr (interpolate (Some 1) (map Some v1) (map Some v2)), c)"
        using evaluate_pair [OF pair] len v2 one
        by (simp add: v teq d_def [symmetric])
      then have code: "evaluate t c =
          (Inr (map (\<lambda>x. case round_to_double x of None \<Rightarrow> None
                          | Some r \<Rightarrow> round_to_double r) v1), c)"
        using len v2(2) by (simp add: interpolate_one)
      from lt small have "time e1 - time e0 \<noteq> 0" "- (2 ^ 63) \<le> time e1 - time e0"
        by simp_all
      then have "ddiv_Time 0 (time e1 - time e0) = Some 0"
        using small by (rule ddiv_Time_zero)
      then have "interpolate (ddiv_Time (time e1 - t) (time e1 - time e0))
            (map Some v0) (map Some v1)
          = map (\<lambda>x. case round_to_double x of None \<Rightarrow> None
                      | Some r \<Rightarrow> round_to_double r) v1"
        using len by (simp add: teq interpolate_zero)
      with code lt show ?thesis by simp
    qed
  qed
qed

theorem evaluate_interpolates_witness:
  "ordered (manager twoPointCurve) \<and> finiteUniform twoPointCurve
   \<and> timesInRange twoPointCurve
   \<and> evaluate 5 twoPointCurve = (Inr [Some 5], twoPointCurve)
   \<and> evaluate 0 twoPointCurve = (Inr [Some 0], twoPointCurve)
   \<and> evaluate 10 twoPointCurve = (Inr [Some 10], twoPointCurve)"
proof -
  have ord: "ordered (manager twoPointCurve)"
    by (simp add: ordered_def twoPointCurve_def entryA_def entryB_def)
  have fin: "finiteUniform twoPointCurve"
    by (simp add: finiteUniform_def twoPointCurve_def entryA_def entryB_def)
  have rng: "timesInRange twoPointCurve"
    by (simp add: timesInRange_def twoPointCurve_def entryA_def entryB_def)
  have es: "timeToCoefficient (manager twoPointCurve) = [] @ entryA # entryB # []"
    by (simp add: twoPointCurve_def)
  have v: "getValue (coefficient entryA) = map Some [0]"
    "getValue (coefficient entryB) = map Some [10]"
    by (simp_all add: entryA_def entryB_def)
  have tm: "time entryA = 0" "time entryB = 10"
    by (simp_all add: entryA_def entryB_def)
  have at5: "interpolate (ddiv_Time 5 10) [Some 0] [Some 10] = [Some 5]"
    by code_simp
  have at0: "interpolate (ddiv_Time 10 10) [Some 0] [Some 10] = [Some 0]"
    by code_simp
  have at10: "interpolate (ddiv_Time 0 10) [Some 0] [Some 10] = [Some 10]"
    by code_simp
  have "evaluate 5 twoPointCurve = (Inr [Some 5], twoPointCurve)"
    using evaluate_interpolates [OF ord fin rng es _ _ _ v, of 5] by (simp add: tm at5)
  moreover have "evaluate 0 twoPointCurve = (Inr [Some 0], twoPointCurve)"
    using evaluate_interpolates [OF ord fin rng es _ _ _ v, of 0] by (simp add: tm at0)
  moreover have "evaluate 10 twoPointCurve = (Inr [Some 10], twoPointCurve)"
    using evaluate_interpolates [OF ord fin rng es _ _ _ v, of 10] by (simp add: tm at10)
  ultimately show ?thesis using ord fin rng by simp
qed

text \<open>
  The specification's wording fails in two ways. Between the coefficients
  \<open>(-(2^63 - 1), 0.0)\<close> and \<open>(2^63 - 1, 1.0)\<close> the difference of the times overflows:
  at time 0 the formula gives \<open>1/2\<close> and \<open>evaluate\<close> returns \<open>2^62\<close>. Between
  \<open>(0, 0.0)\<close> and \<open>(3, 1.0)\<close> the formula gives \<open>1/3\<close> at time 1, which no double
  is, and \<open>evaluate\<close> returns the rounded \<open>3002399751580331 / 2^53\<close>.
\<close>

theorem evaluate_overflows_and_rounds:
  "timeToCoefficient (manager farCurve) = [farA, farB]
   \<and> time farA \<le> 0 \<and> 0 \<le> time farB \<and> time farA < time farB
   \<and> map Some (lerp (real_of_int (time farB - 0) / real_of_int (time farB - time farA)) [0] [1])
       = [Some (1 / 2)]
   \<and> fst (evaluate 0 farCurve) = Inr [Some (2 ^ 62)]
   \<and> timeToCoefficient (manager thirdsCurve) = [thirdA, thirdB]
   \<and> map Some (lerp (real_of_int (time thirdB - 1) / real_of_int (time thirdB - time thirdA))
        [0] [1]) = [Some (1 / 3)]
   \<and> fst (evaluate 1 thirdsCurve) = Inr [Some (3002399751580331 / 2 ^ 53)]
   \<and> fst (evaluate 0 farCurve)
       \<noteq> Inr (map Some (lerp (real_of_int (time farB - 0)
                                   / real_of_int (time farB - time farA)) [0] [1]))
   \<and> fst (evaluate 1 thirdsCurve)
       \<noteq> Inr (map Some (lerp (real_of_int (time thirdB - 1)
                                   / real_of_int (time thirdB - time thirdA)) [0] [1]))"
proof -
  have "fst (evaluate 0 farCurve) = Inr [Some (2 ^ 62)]"
    by code_simp
  moreover have "fst (evaluate 1 thirdsCurve) = Inr [Some (3002399751580331 / 2 ^ 53)]"
    by code_simp
  ultimately show ?thesis
    by (simp add: farCurve_def farA_def farB_def thirdsCurve_def thirdA_def thirdB_def lerp_def)
qed

text \<open>
  C4, as amended. \<open>evaluate\<close> has no case of its own for a curve of one coefficient:
  it always blends the pair the manager returns. On every time-ordered curve of 64-bit
  times with at least two coefficients, every pair the manager returns has \<open>t0 < t1\<close>
  and \<open>t0 \<le> time \<le> t1\<close>, so the divisor \<open>t1 - t0\<close> that \<open>evaluate\<close> computes is not
  zero, neither as a \<open>Time\<close> nor converted to \<open>double\<close>.
\<close>

theorem evaluate_divisor_nonzero:
  assumes "ordered (manager c)" "2 \<le> size_m (manager c)" "timesInRange c"
    and "getCoefficientsAt t (manager c) = Some (p, q)"
  shows "time p < time q \<and> time p \<le> t \<and> t \<le> time q
     \<and> Time_sub (time q) (time p) \<noteq> 0
     \<and> (\<exists>y. double_of_Time (Time_sub (time q) (time p)) = Some y \<and> y \<noteq> 0)
     \<and> evaluate t c =
         (vadd (smul (ddiv_Time (Time_sub (time q) t) (Time_sub (time q) (time p)))
                  (getValue (coefficient p)))
               (smul (dsub (Some 1)
                        (ddiv_Time (Time_sub (time q) t) (Time_sub (time q) (time p))))
                  (getValue (coefficient q))), c)"
proof -
  from getCoefficientsAt_sound [OF assms(1,2,4)] obtain xs ys where
    b: "time p < time q" "time p \<le> t" "t \<le> time q"
    and es: "timeToCoefficient (manager c) = xs @ p # q # ys" by blast
  from assms(3) es have rp: "- (2 ^ 63) \<le> time p" "time p < 2 ^ 63"
    and rq: "- (2 ^ 63) \<le> time q" "time q < 2 ^ 63"
    by (simp_all add: timesInRange_def)
  define d where "d = Time_sub (time q) (time p)"
  have "0 < time q - time p" "time q - time p < 2 ^ 64"
    using b(1) rp rq by simp_all
  then have d0: "d \<noteq> 0"
    unfolding d_def Time_sub_def by (rule wrap_Time_nonzero)
  have dr: "- (2 ^ 63) \<le> d" "d < 2 ^ 63"
    using wrap_Time_range [of "time q - time p"] by (simp_all add: d_def Time_sub_def)
  from double_of_Time_nonzero [OF d0 dr]
  have conv: "\<exists>y. double_of_Time d = Some y \<and> y \<noteq> 0" .
  have "evaluate t c =
      (vadd (smul (ddiv_Time (Time_sub (time q) t) d) (getValue (coefficient p)))
            (smul (dsub (Some 1) (ddiv_Time (Time_sub (time q) t) d))
               (getValue (coefficient q))), c)"
    using assms(4) by (simp add: evaluate_def d_def Let_def)
  with b d0 conv show ?thesis unfolding d_def by simp
qed

theorem evaluate_divisor_nonzero_witness:
  "ordered (manager twoPointCurve) \<and> 2 \<le> size_m (manager twoPointCurve)
   \<and> timesInRange twoPointCurve
   \<and> getCoefficientsAt 5 (manager twoPointCurve) = Some (entryA, entryB)
   \<and> time entryA < time entryB
   \<and> Time_sub (time entryB) (time entryA) \<noteq> 0
   \<and> (\<exists>y. double_of_Time (Time_sub (time entryB) (time entryA)) = Some y \<and> y \<noteq> 0)"
proof -
  have h: "ordered (manager twoPointCurve)" "2 \<le> size_m (manager twoPointCurve)"
    "timesInRange twoPointCurve"
    "getCoefficientsAt 5 (manager twoPointCurve) = Some (entryA, entryB)"
    by (simp_all add: ordered_def size_m_def timesInRange_def getCoefficientsAt_def
        twoPointCurve_def entryA_def entryB_def)
  from evaluate_divisor_nonzero [OF h] h show ?thesis by blast
qed

text \<open>
  The specification's wording fails on the curve whose only coefficient is \<open>(7, [3.0])\<close>:
  \<open>evaluate\<close> at time 7 divides zero by zero and returns a non-finite component, not
  the stored vector.
\<close>

theorem evaluate_single_coefficient_divides_by_zero:
  "timeToCoefficient (manager onePointCurve) = [onlyEntry]
   \<and> time onlyEntry = 7
   \<and> getValue (coefficient onlyEntry) = [Some 3]
   \<and> fst (evaluate 7 onePointCurve) = Inr [None]
   \<and> fst (evaluate 7 onePointCurve) \<noteq> Inr (getValue (coefficient onlyEntry))"
proof -
  have "fst (evaluate 7 onePointCurve) = Inr [None]"
    by code_simp
  then show ?thesis by (simp add: onePointCurve_def onlyEntry_def)
qed

text \<open>
  C5, as amended. For every query on an empty curve and every query time strictly
  before \<open>getMinTime()\<close>, \<open>evaluate\<close> fails and leaves the curve unchanged. The failure
  is a failed \<open>CHECK\<close>, which aborts the process; it is not a recoverable result.
\<close>

theorem evaluate_out_of_range:
  assumes "empty_m (manager c) \<or> t < getMinTime sentinel c"
  shows "evaluate t c = (Inl (CheckFailed ''Unable to get the coefficients at time ''), c)
     \<and> \<not> recoverable (CheckFailed ''Unable to get the coefficients at time '')"
proof -
  have "getCoefficientsAt t (manager c) = None"
  proof (cases "timeToCoefficient (manager c)")
    case Nil
    then show ?thesis by (simp add: getCoefficientsAt_def)
  next
    case (Cons e es)
    with assms have "t < time e"
      by (simp add: empty_m_def getMinTime_def getFrontTime_def)
    with Cons show ?thesis by (cases es) (simp_all add: getCoefficientsAt_def)
  qed
  then show ?thesis by (simp add: evaluate_lookup_failure)
qed

theorem evaluate_out_of_range_witness:
  "empty_m (manager emptyCurve) \<and> -1 < getMinTime 0 twoPointCurve
   \<and> evaluate 0 emptyCurve
       = (Inl (CheckFailed ''Unable to get the coefficients at time ''), emptyCurve)
   \<and> evaluate (-1) twoPointCurve
       = (Inl (CheckFailed ''Unable to get the coefficients at time ''), twoPointCurve)"
proof -
  have h: "empty_m (manager emptyCurve)" "-1 < getMinTime 0 twoPointCurve"
    by (simp_all add: empty_m_def emptyCurve_def getMinTime_def getFrontTime_def
        twoPointCurve_def entryA_def)
  from evaluate_out_of_range [of emptyCurve 0 0] evaluate_out_of_range [of twoPointCurve "-1" 0] h
  show ?thesis by simp
qed

text \<open>
  The claim as stated fails on the empty curve: the failure of \<open>evaluate\<close> there is
  the fatal \<open>CHECK\<close>, not the recoverable \<open>NotFound\<close>.
\<close>

theorem evaluate_failure_is_fatal:
  "fst (evaluate 0 emptyCurve) = Inl (CheckFailed ''Unable to get the coefficients at time '')
   \<and> \<not> recoverable (CheckFailed ''Unable to get the coefficients at time '')
   \<and> fst (evaluate 0 emptyCurve) \<noteq> Inl NotFound"
  by (simp add: evaluate_def emptyCurve_def getCoefficientsAt_def)

section \<open>Fitting the vector space curve\<close>

lemma wrapValues_uniform:
  "list_all (\<lambda>v. length v = n) vs \<Longrightarrow> wrapValues n vs = Inr (map Coefficient vs)"
  by (induction vs) simp_all

lemma wrapValues_mixed:
  "\<not> list_all (\<lambda>v. length v = n) vs
   \<Longrightarrow> wrapValues n vs = Inl (CheckFailed ''The vectors must be uniform length.'')"
  by (induction vs) (auto split: sum.splits simp: wrapValues_uniform)

lemma insertEntry_last:
  "\<forall>x \<in> set es. time x < time e \<Longrightarrow> insertEntry e es = es @ [e]"
  by (induction es) auto

lemma fold_insertEntry_append:
  "sorted_wrt (<) (map time (es @ ns)) \<Longrightarrow> fold insertEntry ns es = es @ ns"
proof (induction ns arbitrary: es)
  case Nil
  then show ?case by simp
next
  case (Cons n ns)
  from Cons.prems have "\<forall>x \<in> set es. time x < time n"
    by (auto simp: sorted_wrt_append)
  then have "insertEntry n es = es @ [n]" by (rule insertEntry_last)
  moreover from Cons.prems have "sorted_wrt (<) (map time ((es @ [n]) @ ns))" by simp
  ultimately show ?case using Cons.IH [of "es @ [n]"] by simp
qed

lemma time_newEntries:
  "length ts = length vs \<Longrightarrow> map time (newEntries k ts vs) = ts"
  by (induction k ts vs rule: newEntries.induct) simp_all

lemma key_newEntries:
  "length ts = length vs \<Longrightarrow> map key (newEntries k ts vs) = [k ..< k + length ts]"
  by (induction k ts vs rule: newEntries.induct) (simp_all add: upt_rec)

lemma values_newEntries:
  "length ts = length vs \<Longrightarrow>
   map (\<lambda>e. getValue (coefficient e)) (newEntries k ts (map Coefficient vs)) = vs"
  by (induction k ts vs rule: newEntries.induct) simp_all

lemma insertCoefficients_into_empty:
  assumes "length ts = length vs" "sorted_wrt (<) ts" "timeToCoefficient m = []"
  shows "insertCoefficients ts vs m =
     (Inr [nextKey m ..< nextKey m + length ts],
      m\<lparr>timeToCoefficient := newEntries (nextKey m) ts vs,
        nextKey := nextKey m + length ts\<rparr>)"
proof -
  have "\<not> list_ex (\<lambda>t. hasCoefficientAtTime t m) ts"
    using assms(3) by (simp add: hasCoefficientAtTime_def list_ex_iff)
  moreover
  have "fold insertEntry (newEntries (nextKey m) ts vs) [] = newEntries (nextKey m) ts vs"
    using fold_insertEntry_append [of "[]" "newEntries (nextKey m) ts vs"] assms
    by (simp add: time_newEntries)
  ultimately show ?thesis using assms by (simp add: insertCoefficients_def)
qed

lemma fitCurve_valid:
  assumes "length ts = length vs" "sorted_wrt (<) ts" "uniform vs" "ts \<noteq> []"
  shows "fitCurve ts vs c =
     (Inr (), c\<lparr>manager := \<lparr>timeToCoefficient =
                   newEntries (nextKey (manager c)) ts (map Coefficient vs),
                 nextKey = nextKey (manager c) + length ts\<rparr>\<rparr>)"
proof -
  have w: "wrapValues (length (vs ! 0)) vs = Inr (map Coefficient vs)"
    using assms(3) by (simp add: uniform_def wrapValues_uniform)
  have "insertCoefficients ts (map Coefficient vs) (clear (manager c)) =
     (Inr [nextKey (manager c) ..< nextKey (manager c) + length ts],
      \<lparr>timeToCoefficient = newEntries (nextKey (manager c)) ts (map Coefficient vs),
       nextKey = nextKey (manager c) + length ts\<rparr>)"
    using insertCoefficients_into_empty [of ts "map Coefficient vs" "clear (manager c)"] assms
    by (simp add: clear_def)
  moreover from assms have "0 < length ts" "vs \<noteq> []" by auto
  ultimately show ?thesis using w assms(1) by (simp add: fitCurve_def clear_def)
qed

lemma fitCurve_empty: "fitCurve [] [] c = (Inr (), c)"
  by (simp add: fitCurve_def)

text \<open>
  A curve fitted to 64-bit times and finite values is time-ordered, holds 64-bit times
  and holds finite vectors of one size, which is what the interpolation property asks of
  a curve.
\<close>

lemma fitCurve_establishes:
  assumes "length ts = length vs" "sorted_wrt (<) ts" "uniform vs" "ts \<noteq> []"
    and "\<forall>v \<in> set vs. None \<notin> set v"
    and "\<forall>t \<in> set ts. - (2 ^ 63) \<le> t \<and> t < 2 ^ 63"
  shows "ordered (manager (snd (fitCurve ts vs c)))
     \<and> finiteUniform (snd (fitCurve ts vs c))
     \<and> timesInRange (snd (fitCurve ts vs c))"
proof -
  define es where "es = newEntries (nextKey (manager c)) ts (map Coefficient vs)"
  have len: "length ts = length (map Coefficient vs)" using assms(1) by simp
  have st: "timeToCoefficient (manager (snd (fitCurve ts vs c))) = es"
    by (simp add: fitCurve_valid [OF assms(1-4)] es_def)
  have tm: "map time es = ts" unfolding es_def by (rule time_newEntries [OF len])
  have vl: "map (\<lambda>e. getValue (coefficient e)) es = vs"
    unfolding es_def by (rule values_newEntries [OF assms(1)])
  from assms(1,4) have "vs \<noteq> []" by auto
  with vl have ne: "es \<noteq> []" by auto
  then have first: "getValue (coefficient (es ! 0)) = vs ! 0"
    using vl by (cases es) auto
  have mem: "getValue (coefficient e) \<in> set vs" if "e \<in> set es" for e
    using that vl by (metis (no_types, lifting) image_eqI set_map)
  have "length (getValue (coefficient e)) = length (vs ! 0)
      \<and> None \<notin> set (getValue (coefficient e))" if "e \<in> set es" for e
    using mem [OF that] assms(3,5) by (simp add: uniform_def list_all_iff)
  then have "finiteUniform (snd (fitCurve ts vs c))"
    by (simp add: finiteUniform_def st first)
  moreover have "ordered (manager (snd (fitCurve ts vs c)))"
    using assms(2) by (simp add: ordered_def st tm)
  moreover have "time e \<in> set ts" if "e \<in> set es" for e
    using that tm by (metis (no_types, lifting) image_eqI set_map)
  then have "timesInRange (snd (fitCurve ts vs c))"
    using assms(6) by (simp add: timesInRange_def st)
  ultimately show ?thesis by simp
qed

text \<open>
  C6, as amended. For every prior curve state and every non-empty input with
  \<open>|times| = |values|\<close>, strictly increasing times and values of one size, \<open>fitCurve\<close>
  succeeds and discards the entire prior state: the manager then holds exactly the given
  times and values, in order, under fresh keys. When the given sequences are empty,
  \<open>fitCurve\<close> changes nothing and the prior state stays.
\<close>

theorem fitCurve_replaces_state:
  assumes "length ts = length vs" "sorted_wrt (<) ts" "uniform vs"
  shows "fst (fitCurve ts vs c) = Inr ()
     \<and> (ts \<noteq> [] \<longrightarrow>
          times_of (snd (fitCurve ts vs c)) = ts
        \<and> values_of (snd (fitCurve ts vs c)) = vs
        \<and> keys_of (snd (fitCurve ts vs c))
            = [nextKey (manager c) ..< nextKey (manager c) + length ts]
        \<and> nextKey (manager (snd (fitCurve ts vs c))) = nextKey (manager c) + length ts
        \<and> dimension (snd (fitCurve ts vs c)) = dimension c)
     \<and> (ts = [] \<longrightarrow> snd (fitCurve ts vs c) = c)"
proof (cases "ts = []")
  case True
  with assms(1) show ?thesis by (simp add: fitCurve_empty)
next
  case False
  have len: "length ts = length (map Coefficient vs)" using assms(1) by simp
  show ?thesis
    using False assms(1)
    by (simp add: fitCurve_valid [OF assms False] times_of_def values_of_def keys_of_def
        time_newEntries [OF len] values_newEntries key_newEntries [OF len])
qed

theorem fitCurve_replaces_state_witness:
  "uniform [[Some 0], [Some 10]]
   \<and> fst (fitCurve [0, 10] [[Some 0], [Some 10]] twoPointCurve) = Inr ()
   \<and> times_of (snd (fitCurve [0, 10] [[Some 0], [Some 10]] twoPointCurve)) = [0, 10]
   \<and> values_of (snd (fitCurve [0, 10] [[Some 0], [Some 10]] twoPointCurve))
       = [[Some 0], [Some 10]]
   \<and> keys_of (snd (fitCurve [0, 10] [[Some 0], [Some 10]] twoPointCurve)) = [2, 3]
   \<and> snd (fitCurve [] [] twoPointCurve) = twoPointCurve"
proof -
  have u: "uniform [[Some 0], [Some (10::real)]]" by (simp add: uniform_def)
  have k: "[2 ..< 4] = [2, 3::nat]" by (simp add: upt_rec)
  have "nextKey (manager twoPointCurve) = 2" by (simp add: twoPointCurve_def)
  then show ?thesis
    using fitCurve_replaces_state [of "[0, 10]" "[[Some 0], [Some 10]]" twoPointCurve] u k
      fitCurve_replaces_state [of "[]" "[]" twoPointCurve]
    by (simp add: uniform_def)
qed

text \<open>
  The specification's wording fails for empty sequences: \<open>fitCurve\<close> on empty input
  keeps the two coefficients the curve held before the call.
\<close>

theorem fitCurve_keeps_state_on_empty_input:
  "fitCurve [] [] twoPointCurve = (Inr (), twoPointCurve)
   \<and> times_of (snd (fitCurve [] [] twoPointCurve)) = [0, 10]"
  by (simp add: fitCurve_def times_of_def twoPointCurve_def entryA_def entryB_def)

text \<open>
  C7. \<open>fitCurve\<close> is idempotent up to fresh keys: for every valid input (equally long
  sequences, strictly increasing times, values of one size) both calls succeed, and the
  second call leaves the same times, values and dimension as the first. For non-empty
  input the keys of the second call are disjoint from those of the first; for empty
  input the state is the very same.
\<close>

theorem fitCurve_twice:
  assumes "length ts = length vs" "sorted_wrt (<) ts" "uniform vs"
  shows "fst (fitCurve ts vs c) = Inr ()
     \<and> fst (fitCurve ts vs (snd (fitCurve ts vs c))) = Inr ()
     \<and> times_of (snd (fitCurve ts vs (snd (fitCurve ts vs c))))
         = times_of (snd (fitCurve ts vs c))
     \<and> values_of (snd (fitCurve ts vs (snd (fitCurve ts vs c))))
         = values_of (snd (fitCurve ts vs c))
     \<and> dimension (snd (fitCurve ts vs (snd (fitCurve ts vs c))))
         = dimension (snd (fitCurve ts vs c))
     \<and> (ts \<noteq> [] \<longrightarrow>
          set (keys_of (snd (fitCurve ts vs (snd (fitCurve ts vs c)))))
            \<inter> set (keys_of (snd (fitCurve ts vs c))) = {})
     \<and> (ts = [] \<longrightarrow> snd (fitCurve ts vs (snd (fitCurve ts vs c))) = snd (fitCurve ts vs c))"
proof (cases "ts = []")
  case True
  with assms(1) show ?thesis by (simp add: fitCurve_empty)
next
  case False
  define c1 where "c1 = snd (fitCurve ts vs c)"
  define c2 where "c2 = snd (fitCurve ts vs c1)"
  have len: "length ts = length (map Coefficient vs)" using assms(1) by simp
  have one: "fitCurve ts vs c = (Inr (), c1)" "times_of c1 = ts" "values_of c1 = vs"
    "keys_of c1 = [nextKey (manager c) ..< nextKey (manager c) + length ts]"
    "nextKey (manager c1) = nextKey (manager c) + length ts"
    unfolding c1_def
    by (simp_all add: fitCurve_valid [OF assms False] times_of_def values_of_def keys_of_def
        time_newEntries [OF len] values_newEntries [OF assms(1)] key_newEntries [OF len])
  have two: "fitCurve ts vs c1 = (Inr (), c2)" "times_of c2 = ts" "values_of c2 = vs"
    "keys_of c2 = [nextKey (manager c1) ..< nextKey (manager c1) + length ts]"
    "dimension c2 = dimension c1"
    unfolding c2_def
    by (simp_all add: fitCurve_valid [OF assms False] times_of_def values_of_def keys_of_def
        time_newEntries [OF len] values_newEntries [OF assms(1)] key_newEntries [OF len])
  have "set (keys_of c2) \<inter> set (keys_of c1) = {}"
    by (auto simp: one two)
  with one two False show ?thesis
    unfolding c1_def [symmetric] c2_def [symmetric] by (simp add: c1_def [symmetric])
qed

theorem fitCurve_twice_witness:
  "uniform [[Some 0], [Some 10]]
   \<and> times_of (snd (fitCurve [0, 10] [[Some 0], [Some 10]]
        (snd (fitCurve [0, 10] [[Some 0], [Some 10]] twoPointCurve)))) = [0, 10]
   \<and> values_of (snd (fitCurve [0, 10] [[Some 0], [Some 10]]
        (snd (fitCurve [0, 10] [[Some 0], [Some 10]] twoPointCurve)))) = [[Some 0], [Some 10]]
   \<and> set (keys_of (snd (fitCurve [0, 10] [[Some 0], [Some 10]]
        (snd (fitCurve [0, 10] [[Some 0], [Some 10]] twoPointCurve)))))
        \<inter> set (keys_of (snd (fitCurve [0, 10] [[Some 0], [Some 10]] twoPointCurve))) = {}"
proof -
  have u: "uniform [[Some 0], [Some (10::real)]]" by (simp add: uniform_def)
  have s: "sorted_wrt (<) [0, 10::int]"
    "length [0, 10::int] = length [[Some 0], [Some (10::real)]]"
    by simp_all
  have first: "times_of (snd (fitCurve [0, 10] [[Some 0], [Some 10]] twoPointCurve)) = [0, 10]"
    "values_of (snd (fitCurve [0, 10] [[Some 0], [Some 10]] twoPointCurve))
       = [[Some 0], [Some 10]]"
    by (simp_all add: fitCurve_valid [OF s(2) s(1) u] times_of_def values_of_def)
  from fitCurve_twice [OF s(2) s(1) u, of twoPointCurve] u first show ?thesis by simp
qed

text \<open>
  C3, as amended. Every \<open>fitCurve\<close> call whose input violates a precondition
  (sequences of different lengths, batch times that do not strictly increase, values of
  different sizes) fails, and no entry of the batch is stored. When the lengths differ
  the curve is exactly what it was before the call. Otherwise the call fails after the
  manager was cleared: the curve is the prior one without its coefficients.
\<close>

theorem fitCurve_failure_state:
  assumes "length ts \<noteq> length vs \<or> \<not> sorted_wrt (<) ts \<or> \<not> uniform vs"
  shows "\<exists>e. fitCurve ts vs c =
     (Inl e, if length ts \<noteq> length vs then c else c\<lparr>manager := clear (manager c)\<rparr>)"
proof (cases "length ts = length vs")
  case False
  then show ?thesis by (simp add: fitCurve_def)
next
  case True
  with assms have bad: "\<not> sorted_wrt (<) ts \<or> \<not> uniform vs" by simp
  then have ne: "ts \<noteq> []" "vs \<noteq> []" using True by (auto simp: uniform_def)
  show ?thesis
  proof (cases "uniform vs")
    case False
    then have "wrapValues (length (vs ! 0)) vs
        = Inl (CheckFailed ''The vectors must be uniform length.'')"
      by (simp add: uniform_def wrapValues_mixed)
    with True ne show ?thesis by (simp add: fitCurve_def)
  next
    case u: True
    then have w: "wrapValues (length (vs ! 0)) vs = Inr (map Coefficient vs)"
      by (simp add: uniform_def wrapValues_uniform)
    from u bad have "\<not> sorted_wrt (<) ts" by simp
    then have "insertCoefficients ts (map Coefficient vs) (clear (manager c))
        = (Inl PreconditionViolation, clear (manager c))"
      by (simp add: insertCoefficients_def)
    with True ne w show ?thesis by (simp add: fitCurve_def)
  qed
qed

theorem fitCurve_failure_state_witness:
  "\<not> sorted_wrt (<) [1, 1::int]
   \<and> (\<exists>e. fitCurve [1, 1] [[Some 0], [Some 0]] twoPointCurve
         = (Inl e, twoPointCurve\<lparr>manager := clear (manager twoPointCurve)\<rparr>))
   \<and> (\<exists>e. fitCurve [1] [] twoPointCurve = (Inl e, twoPointCurve))"
  using fitCurve_failure_state [of "[1, 1]" "[[Some 0], [Some 0]]" twoPointCurve]
    fitCurve_failure_state [of "[1]" "[]" twoPointCurve]
  by simp

text \<open>
  The specification's wording fails for batch times that do not increase: the call
  fails, and the two coefficients the curve held before the call are gone. The same
  happens, within \<open>fitCurve\<close> alone, for values of different sizes.
\<close>

theorem fitCurve_failure_clears:
  "fitCurve [1, 1] [[Some 0], [Some 0]] twoPointCurve
     = (Inl PreconditionViolation,
        \<lparr>dimension = 1, manager = \<lparr>timeToCoefficient = [], nextKey = 2\<rparr>\<rparr>)
   \<and> fitCurve [1, 2] [[Some 0], [Some 0, Some 0]] twoPointCurve
     = (Inl (CheckFailed ''The vectors must be uniform length.''),
        \<lparr>dimension = 1, manager = \<lparr>timeToCoefficient = [], nextKey = 2\<rparr>\<rparr>)
   \<and> timeToCoefficient (manager twoPointCurve) = [entryA, entryB]
   \<and> snd (fitCurve [1, 1] [[Some 0], [Some 0]] twoPointCurve) \<noteq> twoPointCurve"
  by (simp add: fitCurve_def twoPointCurve_def clear_def insertCoefficients_def)

section \<open>The sampling policy\<close>

lemma on_manager_policy:
  "on_manager f c = (r, c') \<Longrightarrow> discretePolicy c' = discretePolicy c"
  by (auto simp: on_manager_def split: prod.splits)





text \<open>What a returning \<open>extend\<close> call does to the policy.\<close>

lemma extend_policy:
  assumes "extend ts vs c = (Inr ks, c')"
  shows "discretePolicy c' =
     (if decimating ts c
      then (discretePolicy c)\<lparr>measurementsSinceLastExtend :=
             (if counter_of c + 1 = minimumMeasurements (discretePolicy c) then 0
              else counter_of c + 1)\<rparr>
      else discretePolicy c)"
proof (cases "decimating ts c")
  case False
  then consider "length ts \<noteq> 1" | "length ts = 1" "isEmpty c \<or> size_c c = 1"
    | "length ts = 1" "\<not> (isEmpty c \<or> size_c c = 1)"
      "minimumMeasurements (discretePolicy c) = 1"
    by (auto simp: decimating_def)
  then have "\<exists>f. on_manager f c = (Inr ks, c')"
  proof cases
    case 1
    with assms show ?thesis by (auto simp: extend_def)
  next
    case 2
    with assms show ?thesis by (auto simp: extend_def)
  next
    case 3
    with assms show ?thesis by (auto simp: extend_def split: if_splits)
  qed
  with False show ?thesis by (auto dest: on_manager_policy)
next
  case True
  define c1 where "c1 = setCounter (measurementsSinceLastExtend (discretePolicy c) + 1) c"
  have p1: "discretePolicy c1 =
      (discretePolicy c)\<lparr>measurementsSinceLastExtend := counter_of c + 1\<rparr>"
    by (simp add: c1_def setCounter_def counter_of_def)
  define inner where "inner =
     (if measurementsSinceLastExtend (discretePolicy c1) = 1
      then on_manager (addCoefficientAtEnd (ts ! 0) (vs ! 0)) c1
      else (case on_manager (modifyCoefficient (coefficientEnd (se3_manager c1) - 1)
                               (ts ! 0) (vs ! 0)) c1 of
              (Inl e, c2) \<Rightarrow> (Inl e, c2)
            | (Inr u, c2) \<Rightarrow> (Inr [], c2)))"
  have p2: "discretePolicy (snd inner) = discretePolicy c1"
    by (auto simp: inner_def on_manager_def Let_def split: prod.splits sum.splits)
  from True assms have run: "(if vs = [] then (Inl UndefinedBehaviour, c1)
      else (case inner of
              (Inl e, c2) \<Rightarrow> (Inl e, c2)
            | (Inr ks, c2) \<Rightarrow>
                (Inr ks,
                 if measurementsSinceLastExtend (discretePolicy c2)
                      = minimumMeasurements (discretePolicy c2)
                 then setCounter 0 c2 else c2))) = (Inr ks, c')"
    unfolding extend_def decimating_def Let_def c1_def [symmetric] inner_def [symmetric]
    by simp
  then have outer: "c' = (if measurementsSinceLastExtend (discretePolicy (snd inner))
                        = minimumMeasurements (discretePolicy (snd inner))
                      then setCounter 0 (snd inner) else snd inner)"
    by (cases inner) (auto split: if_splits sum.splits)
  show ?thesis
    using True p1 unfolding outer by (simp add: p2 setCounter_def)
qed



text \<open>
  C9. The counter of the sampling policy stays in range. With \<open>minimumMeasurements \<ge> 1\<close>
  and \<open>0 \<le> measurementsSinceLastExtend < minimumMeasurements\<close> before an \<open>extend\<close>
  call, the same holds after the call returns, and \<open>minimumMeasurements\<close> is unchanged.
  The batch branch, the bootstrap branch and the branch for \<open>minimumMeasurements = 1\<close>
  leave the counter as it was; the decimation branch increments it and resets it to 0
  exactly when it reaches \<open>minimumMeasurements\<close>.
\<close>

theorem counter_stays_in_range:
  assumes "1 \<le> minimumMeasurements (discretePolicy c)"
    and "0 \<le> counter_of c" "counter_of c < minimumMeasurements (discretePolicy c)"
    and "extend ts vs c = (Inr ks, c')"
  shows "minimumMeasurements (discretePolicy c') = minimumMeasurements (discretePolicy c)
     \<and> 0 \<le> counter_of c' \<and> counter_of c' < minimumMeasurements (discretePolicy c')
     \<and> counter_of c' =
         (if length ts \<noteq> 1 \<or> isEmpty c \<or> size_c c = 1
             \<or> minimumMeasurements (discretePolicy c) = 1
          then counter_of c
          else if counter_of c + 1 = minimumMeasurements (discretePolicy c) then 0
          else counter_of c + 1)"
  using assms(1-3) extend_policy [OF assms(4)]
  by (auto simp: counter_of_def decimating_def)

theorem counter_stays_in_range_witness:
  "extend [20] [1] threePointCurve = (Inr [3], snd (extend [20] [1] threePointCurve))
   \<and> counter_of threePointCurve = 0
   \<and> minimumMeasurements (discretePolicy threePointCurve) = 3
   \<and> counter_of (snd (extend [20] [1] threePointCurve)) = 1
   \<and> minimumMeasurements (discretePolicy (snd (extend [20] [1] threePointCurve))) = 3"
proof -
  have run: "extend [20] [1] threePointCurve = (Inr [3], snd (extend [20] [1] threePointCurve))"
    by (simp add: extend_def threePointCurve_def isEmpty_def empty_m_def size_c_def size_m_def
        setCounter_def on_manager_def addCoefficientAtEnd_def)
  have h: "counter_of threePointCurve = 0"
    "minimumMeasurements (discretePolicy threePointCurve) = 3"
    "\<not> isEmpty threePointCurve" "size_c threePointCurve \<noteq> 1"
    by (simp_all add: counter_of_def threePointCurve_def isEmpty_def empty_m_def size_c_def
        size_m_def)
  from counter_stays_in_range [OF _ _ _ run] h run show ?thesis by simp
qed

section \<open>Derivative of the discrete curve\<close>

text \<open>
  C8. For every time-ordered curve and every two adjacent coefficients \<open>e0\<close>, \<open>e1\<close> of
  it, \<open>evaluateDerivative(time, 1)\<close> is the slope between \<open>e0\<close> and \<open>e1\<close> when the time
  is strictly between them, when it is the time of \<open>e0\<close> (a coefficient that is not the
  last), and when it is the time of \<open>e1\<close> and \<open>e1\<close> is the last coefficient. For every
  order greater than 1 and every time from the first to the last coefficient the result
  is the zero vector. The call fails on every curve with fewer than two coefficients.
\<close>

theorem evaluateDerivative_boundary_rule:
  assumes "ordered (se3_manager c)" "entries_of c = xs @ e0 # e1 # ys"
  shows "(time e0 < t \<and> t < time e1 \<longrightarrow>
            evaluateDerivative tr t 1 c = (Inr (slope tr e0 e1), c))
     \<and> (t = time e0 \<longrightarrow> evaluateDerivative tr t 1 c = (Inr (slope tr e0 e1), c))
     \<and> (t = time e1 \<and> ys = [] \<longrightarrow>
            evaluateDerivative tr t 1 c = (Inr (slope tr e0 e1), c))
     \<and> (getFrontTime s (se3_manager c) \<le> t \<and> t \<le> getBackTime s (se3_manager c) \<and> 1 < n \<longrightarrow>
            evaluateDerivative tr t n c = (Inr (replicate (tangentDim tr) (Some 0)), c))
     \<and> (size_m (se3_manager d) < 2 \<longrightarrow> evaluateDerivative tr t n d = (Inl NotFound, d))"
proof -
  from assms have lt: "time e0 < time e1"
    by (simp add: ordered_def entries_of_def sorted_wrt_append)
  from assms(2) have sz: "\<not> size_m (se3_manager c) < 2"
    by (simp add: size_m_def entries_of_def)
  have es: "timeToCoefficient (se3_manager c) = xs @ e0 # e1 # ys"
    using assms(2) by (simp add: entries_of_def)
  have sel: "time e0 \<le> t \<Longrightarrow> t < time e1 \<or> (t = time e1 \<and> ys = [])
      \<Longrightarrow> getCoefficientsAt t (se3_manager c) = Some (e0, e1)"
    using getCoefficientsAt_adjacent [OF assms(1) es, of t] by auto
  have one: "time e0 \<le> t \<Longrightarrow> t < time e1 \<or> (t = time e1 \<and> ys = [])
      \<Longrightarrow> evaluateDerivative tr t 1 c = (Inr (slope tr e0 e1), c)"
    using sel sz by (simp add: evaluateDerivative_def)
  have high: "evaluateDerivative tr t n c = (Inr (replicate (tangentDim tr) (Some 0)), c)"
    if "getFrontTime s (se3_manager c) \<le> t" "t \<le> getBackTime s (se3_manager c)" "1 < n"
  proof -
    from sz have "2 \<le> size_m (se3_manager c)" by simp
    from getCoefficientsAt_in_range [OF assms(1) this that(1,2)]
    obtain p q where "getCoefficientsAt t (se3_manager c) = Some (p, q)" by blast
    with sz that(3) show ?thesis by (simp add: evaluateDerivative_def)
  qed
  have few: "size_m (se3_manager d) < 2 \<Longrightarrow> evaluateDerivative tr t n d = (Inl NotFound, d)"
    by (simp add: evaluateDerivative_def)
  from one lt high few show ?thesis by auto
qed

theorem evaluateDerivative_boundary_rule_witness:
  "ordered (se3_manager threePointCurve)
   \<and> evaluateDerivative scalarTraits 7 1 threePointCurve = (Inr [Some 6], threePointCurve)
   \<and> evaluateDerivative scalarTraits 5 1 threePointCurve = (Inr [Some 6], threePointCurve)
   \<and> evaluateDerivative scalarTraits 10 1 threePointCurve = (Inr [Some 6], threePointCurve)
   \<and> evaluateDerivative scalarTraits 0 1 threePointCurve = (Inr [Some 2], threePointCurve)
   \<and> evaluateDerivative scalarTraits 7 2 threePointCurve = (Inr [Some 0], threePointCurve)"
proof -
  define e0 :: "real KeyCoefficientTime" where "e0 = \<lparr>key = 0, coefficient = 0, time = 0\<rparr>"
  define e1 :: "real KeyCoefficientTime" where "e1 = \<lparr>key = 1, coefficient = 10, time = 5\<rparr>"
  define e2 :: "real KeyCoefficientTime" where "e2 = \<lparr>key = 2, coefficient = 40, time = 10\<rparr>"
  have ord: "ordered (se3_manager threePointCurve)"
    by (simp add: ordered_def threePointCurve_def)
  have a: "entries_of threePointCurve = [] @ e0 # e1 # [e2]"
    and b: "entries_of threePointCurve = [e0] @ e1 # e2 # []"
    by (simp_all add: entries_of_def threePointCurve_def e0_def e1_def e2_def)
  have s: "slope scalarTraits e0 e1 = [Some 2]" "slope scalarTraits e1 e2 = [Some 6]"
    by (simp_all add: slope_def scalarTraits_def vdiv_Time_def e0_def e1_def e2_def)
  have r: "getFrontTime 0 (se3_manager threePointCurve) = 0"
    "getBackTime 0 (se3_manager threePointCurve) = 10"
    by (simp_all add: getFrontTime_def getBackTime_def threePointCurve_def)
  have t: "time e0 = 0" "time e1 = 5" "time e2 = 10" "tangentDim scalarTraits = 1"
    by (simp_all add: e0_def e1_def e2_def scalarTraits_def)
  from evaluateDerivative_boundary_rule [OF ord b, of 7 scalarTraits 0 2 threePointCurve]
    evaluateDerivative_boundary_rule [OF ord b, of 5 scalarTraits 0 2 threePointCurve]
    evaluateDerivative_boundary_rule [OF ord b, of 10 scalarTraits 0 2 threePointCurve]
    evaluateDerivative_boundary_rule [OF ord a, of 0 scalarTraits 0 2 threePointCurve]
    ord
  show ?thesis by (simp add: s r t)
qed

section \<open>Unimplemented methods of the vector space curve\<close>

text \<open>
  C10. On the linear interpolation vector space curve, \<open>extend\<close>,
  \<open>evaluateDerivative\<close>, \<open>getEvaluator\<close> and \<open>setTimeRange\<close> fail with
  "Not implemented" for every input and every curve, and leave the curve as it was.
  \<open>fitCurve\<close> and \<open>evaluate\<close> are usable: they succeed on the example.
\<close>

theorem not_implemented_always_fails:
  "extend_lin ts vs c = (Inl (CheckFailed ''Not implemented''), c)
   \<and> evaluateDerivative_lin t derivativeOrder c = (Inl (CheckFailed ''Not implemented''), c)
   \<and> getEvaluator t c = (Inl (CheckFailed ''Not implemented''), c)
   \<and> setTimeRange minTime maxTime c = (Inl (CheckFailed ''Not implemented''), c)
   \<and> fst (fitCurve [0, 10] [[Some 0], [Some 10]] emptyCurve) = Inr ()
   \<and> fst (evaluate 5 twoPointCurve) = Inr [Some 5]"
proof -
  have u: "uniform [[Some 0], [Some (10::real)]]" by (simp add: uniform_def)
  have "fst (fitCurve [0, 10] [[Some 0], [Some 10]] emptyCurve) = Inr ()"
    using fitCurve_valid [of "[0, 10]" "[[Some 0], [Some 10]]" emptyCurve] u by simp
  moreover have "fst (evaluate 5 twoPointCurve) = Inr [Some 5]"
    by code_simp
  ultimately show ?thesis
    by (simp add: extend_lin_def evaluateDerivative_lin_def getEvaluator_def setTimeRange_def)
qed

end
